theory Spec2Isabelle
  imports Main "HOL-Library.Sublist"
begin

section \<open>The dotfile updater (dotdrop/updater.py)\<close>

subsection \<open>Paths, the filesystem and the world\<close>

text \<open>
  A location of the filesystem is the list of the components of its absolute path,
  so \<open>os.path.join(left, name)\<close> for a directory entry \<open>name\<close> is \<open>left @ [name]\<close>.
  The filesystem holds regular files (content and modification time) and directories,
  as an association list from locations to entries; there are no symbolic links, so
  \<open>os.path.lexists\<close> and \<open>os.path.exists\<close> coincide.
\<close>

type_synonym path = "string list"

datatype entry = F string nat | D

type_synonym fs = "(path \<times> entry) list"

text \<open>What the logger is told, and what is asked of the user, in order.\<close>

datatype event =
    Err string
  | Warn string
  | Dbg string
  | Dry string
  | Ask string

text \<open>The exceptions of the Python code that the model tracks.\<close>

datatype exn = IOError

text \<open>The mutations of the filesystem that were carried out, in order.\<close>

datatype action =
    Copyfile path path
  | Copytree path path
  | Remove path
  | Mktemp path

datatype 'a result = Return 'a | Raise exn

text \<open>
  The world threaded through every method: the filesystem, the mutations carried out
  on it, the log, the answers the user will give to the successive prompts of
  \<open>Logger.ask\<close> and how many were asked, the clock that stamps written files, and the
  attribute \<open>self.ignores\<close> that \<open>_update\<close> sets.
\<close>

record world =
  files :: fs
  actions :: "action list"
  log :: "event list"
  answers :: "nat \<Rightarrow> bool"
  asked :: nat
  clock :: nat
  ignores :: "string list"

definition pstr :: "path \<Rightarrow> string" where
  "pstr p = concat (map (\<lambda>c. CHR ''/'' # c) p)"

definition quoted :: "string \<Rightarrow> string" where
  "quoted s = [CHR 0x22] @ s @ [CHR 0x22]"

fun join_str :: "string \<Rightarrow> string list \<Rightarrow> string" where
  "join_str sep [] = []"
| "join_str sep [x] = x"
| "join_str sep (x # y # ys) = x @ sep @ join_str sep (y # ys)"

definition emit :: "event \<Rightarrow> world \<Rightarrow> world" where
  "emit e w = w\<lparr>log := log w @ [e]\<rparr>"

text \<open>\<open>Logger.ask\<close>: the prompt is recorded and the next answer of the user is returned.\<close>

definition ask :: "string \<Rightarrow> world \<Rightarrow> bool \<times> world" where
  "ask msg w = (answers w (asked w), (emit (Ask msg) w)\<lparr>asked := Suc (asked w)\<rparr>)"

subsection \<open>Filesystem primitives\<close>

text \<open>The root is a directory; every other location is what the association list says.\<close>

definition lookup :: "fs \<Rightarrow> path \<Rightarrow> entry option" where
  "lookup fs p = (if p = [] then Some D else map_of fs p)"

definition exists :: "fs \<Rightarrow> path \<Rightarrow> bool" where
  "exists fs p = (lookup fs p \<noteq> None)"

definition isdir :: "fs \<Rightarrow> path \<Rightarrow> bool" where
  "isdir fs p = (lookup fs p = Some D)"

text \<open>\<open>os.listdir\<close>: the names directly below a location.\<close>

definition listdir :: "fs \<Rightarrow> path \<Rightarrow> string list" where
  "listdir fs d = remdups (map (\<lambda>(q, e). last q) (filter (\<lambda>(q, e). q \<noteq> [] \<and> butlast q = d) fs))"

text \<open>
  \<open>filecmp.cmp(f1, f2, shallow=True)\<close>: \<open>os.stat\<close> raises when a file is missing; two
  entries that are not both regular files differ; equal signatures (size and
  modification time) are taken as equal files; otherwise the contents decide.
\<close>

definition cmp :: "fs \<Rightarrow> path \<Rightarrow> path \<Rightarrow> bool result" where
  "cmp fs f1 f2 =
     (case lookup fs f1 of
        None \<Rightarrow> Raise IOError
      | Some e1 \<Rightarrow>
         (case lookup fs f2 of
            None \<Rightarrow> Raise IOError
          | Some e2 \<Rightarrow>
             (case e1 of
                D \<Rightarrow> Return False
              | F c1 m1 \<Rightarrow>
                 (case e2 of
                    D \<Rightarrow> Return False
                  | F c2 m2 \<Rightarrow>
                      if length c1 = length c2 \<and> m1 = m2 then Return True
                      else if length c1 \<noteq> length c2 then Return False
                      else Return (c1 = c2)))))"

definition store :: "path \<Rightarrow> entry \<Rightarrow> fs \<Rightarrow> fs" where
  "store p e fs = (p, e) # filter (\<lambda>(q, x). q \<noteq> p) fs"

text \<open>
  \<open>shutil.copyfile(src, dst)\<close>: the source must be a regular file, the destination
  must not be a directory nor the source itself, and its parent must be a directory;
  otherwise an \<open>IOError\<close> is raised and nothing is written. The copy is stamped with
  the current time.
\<close>

definition copyfile :: "path \<Rightarrow> path \<Rightarrow> world \<Rightarrow> unit result \<times> world" where
  "copyfile s d w =
     (case lookup (files w) s of
        Some (F c m) \<Rightarrow>
          if s = d \<or> isdir (files w) d \<or> \<not> isdir (files w) (butlast d) then (Raise IOError, w)
          else (Return (), w\<lparr>files := store d (F c (clock w)) (files w),
                              actions := actions w @ [Copyfile s d],
                              clock := Suc (clock w)\<rparr>)
      | _ \<Rightarrow> (Raise IOError, w))"

text \<open>The directories \<open>os.makedirs\<close> has to create above and at a location.\<close>

definition isfile :: "fs \<Rightarrow> path \<Rightarrow> bool" where
  "isfile fs p = (case lookup fs p of Some (F c m) \<Rightarrow> True | _ \<Rightarrow> False)"

definition missing_dirs :: "fs \<Rightarrow> path \<Rightarrow> (path \<times> entry) list" where
  "missing_dirs fs p = map (\<lambda>q. (q, D)) (filter (\<lambda>q. \<not> exists fs q) (prefixes p))"

text \<open>
  \<open>shutil.copytree(src, dst)\<close>: the source must be a directory, the destination must
  not exist, no location above the destination may be a regular file, and a directory
  is not copied into itself; otherwise an \<open>IOError\<close> is raised. The tree below the
  source is copied as it is, modification times included.
\<close>

definition copytree :: "path \<Rightarrow> path \<Rightarrow> world \<Rightarrow> unit result \<times> world" where
  "copytree s d w =
     (let fs = files w in
      if \<not> isdir fs s \<or> exists fs d \<or> prefix s d \<or> list_ex (isfile fs) (prefixes d)
      then (Raise IOError, w)
      else (Return (), w\<lparr>files := fs @ missing_dirs fs d @
                                     map (\<lambda>(q, e). (d @ drop (length s) q, e))
                                       (filter (\<lambda>(q, e). strict_prefix s q) fs),
                          actions := actions w @ [Copytree s d]\<rparr>))"

text \<open>
  Modelled from the spec: \<open>utils.remove\<close> is not part of updater.py; the spec lists it as
  the recursive remove of the filesystem utilities. Removing a location that does not
  exist, or the root, raises.
\<close>

definition remove :: "path \<Rightarrow> world \<Rightarrow> unit result \<times> world" where
  "remove p w =
     (if p = [] \<or> \<not> exists (files w) p then (Raise IOError, w)
      else (Return (), w\<lparr>files := filter (\<lambda>(q, e). \<not> prefix p q) (files w),
                          actions := actions w @ [Remove p]\<rparr>))"

text \<open>
  Temporary names (\<open>utils.get_unique_tmp_name\<close>, \<open>tempfile.mkstemp\<close>) are names at the
  top level that no location of the filesystem uses: longer than all its components
  together.
\<close>

definition fresh_tmp :: "fs \<Rightarrow> path" where
  "fresh_tmp fs = [replicate (Suc (sum_list (map length (concat (map fst fs))))) CHR ''t'']"

text \<open>
  Modelled from the spec: \<open>utils.write_to_tmpfile\<close> is not part of updater.py; the spec
  lists it as write-string-to-temp-file. It creates a new temporary file with the
  content and returns its path.
\<close>

definition write_to_tmpfile :: "string \<Rightarrow> world \<Rightarrow> path \<times> world" where
  "write_to_tmpfile content w =
     (let tmp = fresh_tmp (files w) in
      (tmp, w\<lparr>files := store tmp (F content (clock w)) (files w),
               actions := actions w @ [Mktemp tmp],
               clock := Suc (clock w)\<rparr>))"

subsection \<open>Dotfile records and the updater\<close>

text \<open>
  A write transformation has a key, and \<open>transform(path, tmp)\<close> runs an external
  command: it reports success and may leave a file at \<open>tmp\<close>.
\<close>

record trans =
  tkey :: string
  transform :: "fs \<Rightarrow> string \<Rightarrow> path \<Rightarrow> bool \<times> string option"

record dotfile =
  key :: string
  dst :: string
  src :: string
  trans_w :: "trans option"
  upignore :: "string list"

text \<open>
  The fields of \<open>Updater\<close>. \<open>dotfiles\<close> is \<open>conf.get_dotfiles(profile)\<close> and
  \<open>dotroot\<close> is \<open>conf.abs_or_rel(dotpath)\<close>. The process environment is here as well:
  \<open>home\<close> is \<open>$HOME\<close>, \<open>cwd\<close> the working directory and \<open>expandvars\<close> is
  \<open>os.path.expandvars\<close> with the variables of the process. The collaborators that are not part of
  updater.py are fields too: \<open>fnmatch\<close> (the glob matcher behind
  \<open>utils.must_ignore\<close>), \<open>Templategen.is_template\<close> and \<open>Templategen.generate\<close>, which
  read the filesystem.
\<close>

record updater =
  dotfiles :: "dotfile list"
  dotroot :: string
  home :: string
  cwd :: string
  expandvars :: "string \<Rightarrow> string"
  dry :: bool
  safe :: bool
  debug :: bool
  ignore :: "string list"
  showpatch :: bool
  fnmatch :: "string \<Rightarrow> string \<Rightarrow> bool"
  templategen_is_template :: "fs \<Rightarrow> path \<Rightarrow> bool"
  templategen_generate :: "fs \<Rightarrow> path \<Rightarrow> string"

subsection \<open>Ignoring, templates and prompts\<close>

definition dbg :: "updater \<Rightarrow> string \<Rightarrow> world \<Rightarrow> world" where
  "dbg u msg w = (if debug u then emit (Dbg msg) w else w)"

definition pylist :: "path list \<Rightarrow> string" where
  "pylist ps = ''['' @ join_str '', '' (map (\<lambda>p. [CHR 0x27] @ pstr p @ [CHR 0x27]) ps) @ '']''"

text \<open>
  Modelled from the spec: \<open>utils.must_ignore\<close> is not part of updater.py. The spec says:
  true if any path in the set matches any glob-style pattern in the merged ignore set.
\<close>

definition must_ignore :: "updater \<Rightarrow> path list \<Rightarrow> string list \<Rightarrow> bool" where
  "must_ignore u paths pats = list_ex (\<lambda>p. list_ex (\<lambda>i. fnmatch u (pstr p) i) pats) paths"

definition ignore_paths :: "updater \<Rightarrow> path list \<Rightarrow> world \<Rightarrow> bool \<times> world" where
  "ignore_paths u paths w =
     (if must_ignore u paths (ignores w)
      then (True, dbg u (''ignoring update for '' @ pylist paths) w)
      else (False, w))"

definition is_template :: "updater \<Rightarrow> path \<Rightarrow> world \<Rightarrow> bool \<times> world" where
  "is_template u p w =
     (if \<not> templategen_is_template u (files w) p then (False, w)
      else (True, emit (Warn (pstr p @ '' uses template, update manually'')) w))"

definition resolve_template :: "updater \<Rightarrow> path \<Rightarrow> world \<Rightarrow> string" where
  "resolve_template u tpath w = templategen_generate u (files w) tpath"

definition show_patch :: "updater \<Rightarrow> path \<Rightarrow> path \<Rightarrow> world \<Rightarrow> bool \<times> world" where
  "show_patch u tpath fpath w =
     (let content = resolve_template u tpath w;
          (tmp, w1) = write_to_tmpfile content w;
          cmds = [''diff'', ''-u'', pstr tmp, pstr fpath, ''|'', ''patch'', pstr tpath]
      in (False, emit (Warn (''try patching with: '' @ quoted (join_str '' '' cmds))) w1))"

definition overwrite :: "updater \<Rightarrow> path \<Rightarrow> path \<Rightarrow> world \<Rightarrow> bool \<times> world" where
  "overwrite u s d w =
     (let msg = ''Overwrite '' @ quoted (pstr d) @ '' with '' @ quoted (pstr s) @ ''?'' in
      if safe u then
        (let (yes, w1) = ask msg w in if \<not> yes then (False, w1) else (True, w1))
      else (True, w))"

definition confirm_rm_r :: "updater \<Rightarrow> path \<Rightarrow> world \<Rightarrow> bool \<times> world" where
  "confirm_rm_r u directory w =
     (let msg = ''Recursively remove '' @ quoted (pstr directory) @ ''?'' in
      if safe u then
        (let (yes, w1) = ask msg w in if \<not> yes then (False, w1) else (True, w1))
      else (True, w))"

subsection \<open>File sync\<close>

text \<open>The \<open>try\<close> block of \<open>_handle_file\<close>: an \<open>IOError\<close> of the copy is caught here.\<close>

definition try_copy :: "updater \<Rightarrow> path \<Rightarrow> path \<Rightarrow> world \<Rightarrow> bool result \<times> world" where
  "try_copy u left right w =
     (if dry u then (Return True, emit (Dry (''would cp '' @ pstr left @ '' '' @ pstr right)) w)
      else
        (case copyfile left right (dbg u (''cp '' @ pstr left @ '' '' @ pstr right) w) of
           (Raise IOError, w1) \<Rightarrow>
             (Return False, emit (Warn (pstr left @ '' update failed, do manually: IOError'')) w1)
         | (Return x, w1) \<Rightarrow> (Return True, w1)))"

definition handle_file :: "updater \<Rightarrow> path \<Rightarrow> path \<Rightarrow> bool \<Rightarrow> world \<Rightarrow> bool result \<times> world" where
  "handle_file u left right compare w =
     (let (ign, w1) = ignore_paths u [left, right] w in
      if ign then (Return True, w1)
      else
        (let w2 = dbg u (''update for file '' @ pstr left @ '' and '' @ pstr right) w1;
             (tpl, w3) = is_template u right w2
         in
         if tpl then
           (let w4 = dbg u (pstr right @ '' is a template'') w3;
                w5 = (if showpatch u then snd (show_patch u right left w4) else w4)
            in (Return False, w5))
         else
           (case (if compare then cmp (files w3) left right else Return False) of
              Raise e \<Rightarrow> (Raise e, w3)
            | Return same \<Rightarrow>
                if same then
                  (Return True, dbg u (''identical files: '' @ pstr left @ '' and '' @ pstr right) w3)
                else
                  (let (ok, w4) = overwrite u left right w3 in
                   if \<not> ok then (Return False, w4)
                   else try_copy u left right w4))))"

subsection \<open>Directory comparison\<close>

text \<open>
  The attributes of a \<open>filecmp.dircmp\<close> object that \<open>_merge_dirs\<close> reads. \<open>subdirs\<close>
  maps the name of each common subdirectory to its own comparison.
\<close>

datatype dircmp =
  Dircmp (left_dir: path) (right_dir: path)
    (left_only: "string list") (right_only: "string list")
    (diff_files: "string list") (funny_files: "string list") (common_funny: "string list")
    (subdirs: "(string \<times> dircmp) list")

text \<open>
  \<open>filecmp.dircmp(left, right, ignore=None)\<close>: the listings leave out the names that
  \<open>filecmp\<close> hides or ignores by default. Common names are directories on both sides,
  regular files on both sides, or funny; common files are compared shallowly. The
  comparison is taken when it is built; the names keep the order of the listing.
\<close>

definition default_ignores :: "string list" where
  "default_ignores = [''RCS'', ''CVS'', ''tags'', ''.git'', ''.hg'', ''.bzr'', ''_darcs'', ''__pycache__'']"

definition dir_list :: "fs \<Rightarrow> path \<Rightarrow> string list" where
  "dir_list fs d = filter (\<lambda>n. n \<notin> set ([''.'', ''..''] @ default_ignores)) (listdir fs d)"

definition common :: "fs \<Rightarrow> path \<Rightarrow> path \<Rightarrow> string list" where
  "common fs l r = filter (\<lambda>n. n \<in> set (dir_list fs r)) (dir_list fs l)"

definition common_dirs :: "fs \<Rightarrow> path \<Rightarrow> path \<Rightarrow> string list" where
  "common_dirs fs l r = filter (\<lambda>n. isdir fs (l @ [n]) \<and> isdir fs (r @ [n])) (common fs l r)"

definition common_files :: "fs \<Rightarrow> path \<Rightarrow> path \<Rightarrow> string list" where
  "common_files fs l r = filter (\<lambda>n. isfile fs (l @ [n]) \<and> isfile fs (r @ [n])) (common fs l r)"

function filecmp_dircmp :: "fs \<Rightarrow> path \<Rightarrow> path \<Rightarrow> dircmp" where
  "filecmp_dircmp fs l r =
     Dircmp l r
       (filter (\<lambda>n. n \<notin> set (dir_list fs r)) (dir_list fs l))
       (filter (\<lambda>n. n \<notin> set (dir_list fs l)) (dir_list fs r))
       (filter (\<lambda>n. cmp fs (l @ [n]) (r @ [n]) = Return False) (common_files fs l r))
       (filter (\<lambda>n. cmp fs (l @ [n]) (r @ [n]) = Raise IOError) (common_files fs l r))
       (filter (\<lambda>n. isdir fs (l @ [n]) \<noteq> isdir fs (r @ [n])) (common fs l r))
       (map (\<lambda>n. (n, filecmp_dircmp fs (l @ [n]) (r @ [n]))) (common_dirs fs l r))"
  by pat_completeness auto
termination
proof (relation "measure (\<lambda>(fs, l, r). length (filter (\<lambda>(q, e). strict_prefix l q) fs))")
  show "wf (measure (\<lambda>(fs, l, r). length (filter (\<lambda>(q, e). strict_prefix l q) fs)))"
    by simp
next
  fix fs :: fs and l r :: path and n :: string
  assume "n \<in> set (common_dirs fs l r)"
  then have "isdir fs (l @ [n])"
    by (simp add: common_dirs_def)
  then have "map_of fs (l @ [n]) = Some D"
    by (simp add: isdir_def lookup_def)
  then have mem: "(l @ [n], D) \<in> set fs"
    by (rule map_of_SomeD)
  have sub: "\<And>x. (case x of (q, e) \<Rightarrow> strict_prefix (l @ [n]) q) \<Longrightarrow>
                  (case x of (q, e) \<Rightarrow> strict_prefix l q)"
    by (auto simp: strict_prefix_def prefix_def)
  have eq: "filter (\<lambda>(q, e). strict_prefix (l @ [n]) q) fs
            = filter (\<lambda>(q, e). strict_prefix (l @ [n]) q) (filter (\<lambda>(q, e). strict_prefix l q) fs)"
    unfolding filter_filter by (rule filter_cong) (use sub in auto)
  have "(l @ [n], D) \<in> set (filter (\<lambda>(q, e). strict_prefix l q) fs)"
    using mem by (simp add: strict_prefix_def)
  then have "length (filter (\<lambda>(q, e). strict_prefix (l @ [n]) q) (filter (\<lambda>(q, e). strict_prefix l q) fs))
        < length (filter (\<lambda>(q, e). strict_prefix l q) fs)"
    by (rule length_filter_less) simp
  with eq have "length (filter (\<lambda>(q, e). strict_prefix (l @ [n]) q) fs)
        < length (filter (\<lambda>(q, e). strict_prefix l q) fs)"
    by simp
  then show "((fs, l @ [n], r @ [n]), (fs, l, r))
             \<in> measure (\<lambda>(fs, l, r). length (filter (\<lambda>(q, e). strict_prefix l q) fs))"
    by simp
qed

declare filecmp_dircmp.simps [simp del]

subsection \<open>Tree merge\<close>

text \<open>
  A \<open>for\<close> loop: the body runs on each element in turn, \<open>continue\<close> is the normal end
  of the body, and an exception ends the loop.
\<close>

fun for_each :: "('a \<Rightarrow> world \<Rightarrow> unit result \<times> world) \<Rightarrow> 'a list \<Rightarrow> world \<Rightarrow> unit result \<times> world" where
  "for_each body [] w = (Return (), w)"
| "for_each body (x # xs) w =
     (case body x w of
        (Raise e, w1) \<Rightarrow> (Raise e, w1)
      | (Return y, w1) \<Rightarrow> for_each body xs w1)"

text \<open>The body of the first loop of \<open>_merge_dirs\<close>: create dirs that don't exist in dotdrop.\<close>

definition add_dir :: "updater \<Rightarrow> path \<Rightarrow> path \<Rightarrow> string \<Rightarrow> world \<Rightarrow> unit result \<times> world" where
  "add_dir u left right toadd w =
     (let exist = left @ [toadd] in
      if \<not> isdir (files w) exist then (Return (), w)
      else
        (let new = right @ [toadd];
             (ign, w1) = ignore_paths u [exist, new] w
         in
         if ign then (Return (), w1)
         else if dry u then
           (Return (), emit (Dry (''would cp -r '' @ pstr exist @ '' '' @ pstr new)) w1)
         else copytree exist new (dbg u (''cp -r '' @ pstr exist @ '' '' @ pstr new) w1)))"

text \<open>The body of the second loop: remove dirs that don't exist in deployed version.\<close>

definition remove_dir :: "updater \<Rightarrow> path \<Rightarrow> string \<Rightarrow> world \<Rightarrow> unit result \<times> world" where
  "remove_dir u right toremove w =
     (let old = right @ [toremove] in
      if \<not> isdir (files w) old then (Return (), w)
      else
        (let (ign, w1) = ignore_paths u [old] w in
         if ign then (Return (), w1)
         else if dry u then (Return (), emit (Dry (''would rm -r '' @ pstr old)) w1)
         else
           (let (ok, w2) = confirm_rm_r u old (dbg u (''rm -r '' @ pstr old) w1) in
            if \<not> ok then (Return (), w2)
            else remove old w2)))"

text \<open>A call whose returned value is not used.\<close>

definition drop_value :: "'a result \<times> world \<Rightarrow> unit result \<times> world" where
  "drop_value r = (case r of (Raise e, w) \<Rightarrow> (Raise e, w) | (Return x, w) \<Rightarrow> (Return (), w))"

text \<open>
  The body of the third loop: sync files that exist in both but are different. The
  result of \<open>_handle_file\<close> is dropped.
\<close>

definition sync_file :: "updater \<Rightarrow> path \<Rightarrow> path \<Rightarrow> string \<Rightarrow> world \<Rightarrow> unit result \<times> world" where
  "sync_file u left right f w =
     (let fleft = left @ [f];
          fright = right @ [f];
          (ign, w1) = ignore_paths u [fleft, fright] w
      in
      if ign then (Return (), w1)
      else if dry u then
        (Return (), emit (Dry (''would cp '' @ pstr fleft @ '' '' @ pstr fright)) w1)
      else
        drop_value (handle_file u fleft fright False
                      (dbg u (''cp '' @ pstr fleft @ '' '' @ pstr fright) w1)))"

text \<open>The body of the fourth loop: copy files that don't exist in dotdrop.\<close>

definition add_file :: "updater \<Rightarrow> path \<Rightarrow> path \<Rightarrow> string \<Rightarrow> world \<Rightarrow> unit result \<times> world" where
  "add_file u left right toadd w =
     (let exist = left @ [toadd] in
      if isdir (files w) exist then (Return (), w)
      else
        (let new = right @ [toadd];
             (ign, w1) = ignore_paths u [exist, new] w
         in
         if ign then (Return (), w1)
         else if dry u then
           (Return (), emit (Dry (''would cp '' @ pstr exist @ '' '' @ pstr new)) w1)
         else copyfile exist new (dbg u (''cp '' @ pstr exist @ '' '' @ pstr new) w1)))"

text \<open>The body of the fifth loop: remove files that don't exist in deployed version.\<close>

definition remove_file :: "updater \<Rightarrow> path \<Rightarrow> string \<Rightarrow> world \<Rightarrow> unit result \<times> world" where
  "remove_file u right toremove w =
     (let new = right @ [toremove] in
      if \<not> exists (files w) new then (Return (), w)
      else if isdir (files w) new then (Return (), w)
      else
        (let (ign, w1) = ignore_paths u [new] w in
         if ign then (Return (), w1)
         else if dry u then (Return (), emit (Dry (''would rm '' @ pstr new)) w1)
         else remove new (dbg u (''rm '' @ pstr new) w1)))"

text \<open>Running one step after another, as long as no exception is raised.\<close>

definition and_then :: "unit result \<times> world \<Rightarrow> (world \<Rightarrow> 'a result \<times> world) \<Rightarrow> 'a result \<times> world" where
  "and_then r f = (case r of (Raise e, w) \<Rightarrow> (Raise e, w) | (Return x, w) \<Rightarrow> f w)"

text \<open>
  \<open>_merge_dirs\<close>, and its last loop over \<open>diff.subdirs.values()\<close>, whose results are
  dropped.
\<close>

fun merge_dirs :: "updater \<Rightarrow> dircmp \<Rightarrow> world \<Rightarrow> bool result \<times> world"
  and merge_subdirs :: "updater \<Rightarrow> (string \<times> dircmp) list \<Rightarrow> world \<Rightarrow> unit result \<times> world" where
  "merge_dirs u (Dircmp left right lonly ronly dfiles ffiles cfunny subs) w =
     (let w0 = dbg u (''sync dir '' @ pstr left @ '' to '' @ pstr right) w;
          (ign, w1) = ignore_paths u [left, right] w0
      in
      if ign then (Return True, w1)
      else
        and_then (for_each (add_dir u left right) lonly w1) (\<lambda>w2.
        and_then (for_each (remove_dir u right) ronly w2) (\<lambda>w3.
        and_then (for_each (sync_file u left right) (dfiles @ ffiles @ cfunny) w3) (\<lambda>w4.
        and_then (for_each (add_file u left right) lonly w4) (\<lambda>w5.
        and_then (for_each (remove_file u right) ronly w5) (\<lambda>w6.
        and_then (merge_subdirs u subs w6) (\<lambda>w7. (Return True, w7))))))))"
| "merge_subdirs u [] w = (Return (), w)"
| "merge_subdirs u ((name, subdir) # rest) w =
     (case merge_dirs u subdir w of
        (Raise e, w1) \<Rightarrow> (Raise e, w1)
      | (Return x, w1) \<Rightarrow> merge_subdirs u rest w1)"

subsection \<open>Dotfile lookup\<close>

definition get_dotfile_by_key :: "updater \<Rightarrow> string \<Rightarrow> world \<Rightarrow> dotfile option \<times> world" where
  "get_dotfile_by_key u k w =
     (let subs = filter (\<lambda>d. key d = k) (dotfiles u) in
      if subs = [] then
        (None, emit (Err (''key '' @ quoted k @ '' not found!'')) w)
      else if length subs > 1 then
        (let found = join_str '','' (map src (dotfiles u)) in
         (None, emit (Err (''multiple dotfiles found: '' @ found)) w))
      else (Some (hd subs), w))"

definition get_dotfile_by_path :: "updater \<Rightarrow> string \<Rightarrow> world \<Rightarrow> dotfile option \<times> world" where
  "get_dotfile_by_path u p w =
     (let subs = filter (\<lambda>d. dst d = p) (dotfiles u) in
      if subs = [] then
        (None, emit (Err (quoted p @ '' is not managed!'')) w)
      else if length subs > 1 then
        (let found = join_str '','' (map src (dotfiles u)) in
         (None, emit (Err (''multiple dotfiles found: '' @ found)) w))
      else (Some (hd subs), w))"

text \<open>
  \<open>_handle_dir\<close>. The paths are locations already, so the two calls of
  \<open>os.path.expanduser\<close> have nothing to do. Listing a location that is not a directory
  raises when \<open>_merge_dirs\<close> first reads the comparison, after its debug line and its
  own check of the ignore patterns.
\<close>

definition handle_dir :: "updater \<Rightarrow> path \<Rightarrow> path \<Rightarrow> world \<Rightarrow> bool result \<times> world" where
  "handle_dir u left right w =
     (let w0 = dbg u (''handle update for dir '' @ pstr left @ '' to '' @ pstr right) w;
          (ign, w1) = ignore_paths u [left, right] w0
      in
      if ign then (Return True, w1)
      else if \<not> (isdir (files w1) left \<and> isdir (files w1) right) then
        (Raise IOError, dbg u (''sync dir '' @ pstr left @ '' to '' @ pstr right) w1)
      else merge_dirs u (filecmp_dircmp (files w1) left right) w1)"

subsection \<open>Path strings\<close>

definition TILD :: string where
  "TILD = ''~''"

text \<open>\<open>os.path.join\<close> of two strings.\<close>

definition path_join :: "string \<Rightarrow> string \<Rightarrow> string" where
  "path_join a b =
     (if prefix ''/'' b then b
      else if a = [] \<or> suffix ''/'' a then a @ b
      else a @ ''/'' @ b)"

definition rstrip_slash :: "string \<Rightarrow> string" where
  "rstrip_slash s = rev (dropWhile (\<lambda>c. c = CHR ''/'') (rev s))"

text \<open>
  \<open>os.path.expanduser\<close>: a leading \<open>~\<close> alone or before a slash is replaced by
  \<open>$HOME\<close> without its trailing slashes; \<open>~name\<close> is left as it is, no other user
  being known.
\<close>

definition expanduser :: "updater \<Rightarrow> string \<Rightarrow> string" where
  "expanduser u p =
     (if \<not> prefix ''~'' p then p
      else if takeWhile (\<lambda>c. c \<noteq> CHR ''/'') (tl p) \<noteq> [] then p
      else
        (let r = rstrip_slash (home u) @ dropWhile (\<lambda>c. c \<noteq> CHR ''/'') (tl p) in
         if r = [] then ''/'' else r))"

text \<open>\<open>str.split('/')\<close>.\<close>

fun split_slash :: "string \<Rightarrow> string list" where
  "split_slash [] = [[]]"
| "split_slash (c # cs) =
     (if c = CHR ''/'' then [] # split_slash cs
      else (case split_slash cs of [] \<Rightarrow> [[c]] | x # xs \<Rightarrow> (c # x) # xs))"

text \<open>The loop of \<open>os.path.normpath\<close> over the components.\<close>

fun norm_comps :: "nat \<Rightarrow> string list \<Rightarrow> string list \<Rightarrow> string list" where
  "norm_comps initial_slashes [] new_comps = new_comps"
| "norm_comps initial_slashes (part # comps) new_comps =
     (if part = [] \<or> part = ''.'' then norm_comps initial_slashes comps new_comps
      else if part \<noteq> ''..'' \<or> (initial_slashes = 0 \<and> new_comps = [])
              \<or> (new_comps \<noteq> [] \<and> last new_comps = ''..'')
      then norm_comps initial_slashes comps (new_comps @ [part])
      else if new_comps \<noteq> [] then norm_comps initial_slashes comps (butlast new_comps)
      else norm_comps initial_slashes comps new_comps)"

definition normpath :: "string \<Rightarrow> string" where
  "normpath p =
     (if p = [] then ''.''
      else
        (let initial_slashes =
               (if prefix ''/'' p then (if prefix ''//'' p \<and> \<not> prefix ''///'' p then 2 else 1) else 0);
             comps = norm_comps initial_slashes (split_slash p) [];
             q = replicate initial_slashes CHR ''/'' @ join_str ''/'' comps
         in if q = [] then ''.'' else q))"

definition abspath :: "updater \<Rightarrow> string \<Rightarrow> string" where
  "abspath u p = normpath (if prefix ''/'' p then p else path_join (cwd u) p)"

text \<open>The location a path string names: the components of its absolute form.\<close>

definition locate :: "updater \<Rightarrow> string \<Rightarrow> path" where
  "locate u p = filter (\<lambda>c. c \<noteq> []) (split_slash (abspath u p))"

definition normalize_path :: "updater \<Rightarrow> string \<Rightarrow> string" where
  "normalize_path u p0 =
     (let p1 = expanduser u p0;
          p2 = expandvars u p1;
          p3 = abspath u p2;
          h = expanduser u TILD @ ''/''
      in if prefix h p3 then path_join TILD (drop (length h) p3) else p3)"

subsection \<open>The update of one dotfile\<close>

text \<open>
  \<open>_apply_trans_w\<close>. The transformation is given the path and the temporary name; what
  it leaves there, if anything, is written to the filesystem.
\<close>

definition apply_trans_w :: "updater \<Rightarrow> string \<Rightarrow> dotfile \<Rightarrow> trans \<Rightarrow> world \<Rightarrow> path option \<times> world" where
  "apply_trans_w u p dotfile tr w =
     (let w1 = dbg u (''executing write transformation '' @ tkey tr) w;
          tmp = fresh_tmp (files w1);
          (ok, out) = transform tr (files w1) p tmp;
          w2 = (case out of
                  None \<Rightarrow> w1
                | Some c \<Rightarrow> w1\<lparr>files := store tmp (F c (clock w1)) (files w1),
                                actions := actions w1 @ [Mktemp tmp],
                                clock := Suc (clock w1)\<rparr>)
      in
      if \<not> ok then
        (let w3 = emit (Err (''transformation '' @ quoted (tkey tr) @ '' failed for '' @ key dotfile)) w2;
             w4 = (if exists (files w3) tmp then snd (remove tmp w3) else w3)
         in (None, w4))
      else (Some tmp, w2))"

text \<open>The end of \<open>_update\<close>: dispatch on the kind of \<open>left\<close>, then clean temporary files.\<close>

definition dispatch :: "updater \<Rightarrow> path \<Rightarrow> path \<Rightarrow> path option \<Rightarrow> world \<Rightarrow> bool result \<times> world" where
  "dispatch u left right new_path w =
     (case (if isdir (files w) left then handle_dir u left right w
            else handle_file u left right True w) of
        (Raise e, w1) \<Rightarrow> (Raise e, w1)
      | (Return ret, w1) \<Rightarrow>
          (case new_path of
             None \<Rightarrow> (Return ret, w1)
           | Some tmp \<Rightarrow>
               if exists (files w1) tmp then
                 (case remove tmp w1 of
                    (Raise e, w2) \<Rightarrow> (Raise e, w2)
                  | (Return x, w2) \<Rightarrow> (Return ret, w2))
               else (Return ret, w1)))"

definition update :: "updater \<Rightarrow> string \<Rightarrow> dotfile \<Rightarrow> world \<Rightarrow> bool result \<times> world" where
  "update u p dotfile w =
     (let w0 = w\<lparr>ignores := remdups (ignore u @ upignore dotfile)\<rparr>;
          w1 = dbg u (''ignore pattern(s): '' @ ''['' @ join_str '', '' (map (\<lambda>i. [CHR 0x27] @ i @ [CHR 0x27]) (ignores w0)) @ '']'') w0;
          left = locate u (expanduser u p);
          right = locate u (expanduser u (path_join (dotroot u) (src dotfile)));
          (ign, w2) = ignore_paths u [left, right] w1
      in
      if ign then (Return True, w2)
      else
        (case trans_w dotfile of
           None \<Rightarrow> dispatch u left right None w2
         | Some tr \<Rightarrow>
            (case apply_trans_w u p dotfile tr w2 of
               (None, w3) \<Rightarrow> (Return False, w3)
             | (Some new_path, w3) \<Rightarrow> dispatch u new_path right (Some new_path) w3)))"


definition update_key :: "updater \<Rightarrow> string \<Rightarrow> world \<Rightarrow> bool result \<times> world" where
  "update_key u k w =
     (case get_dotfile_by_key u k w of
        (None, w1) \<Rightarrow> (Return False, w1)
      | (Some dotfile, w1) \<Rightarrow>
          (let w2 = dbg u (''updating '' @ key dotfile @ '' from key '' @ quoted k) w1;
               p = normalize_path u (dst dotfile)
           in update u p dotfile w2))"

subsection \<open>Relations between worlds, for the statements\<close>

text \<open>Nothing was mutated between two worlds, and the ignore patterns are the same.\<close>

definition quiet :: "world \<Rightarrow> world \<Rightarrow> bool" where
  "quiet w w' = (files w' = files w \<and> actions w' = actions w \<and> ignores w' = ignores w)"


text \<open>
  The actions that only concern temporary files: creating one, and removing the
  temporary file \<open>t\<close>.
\<close>

fun temp_action :: "path \<Rightarrow> action \<Rightarrow> bool" where
  "temp_action t (Mktemp x) = True"
| "temp_action t (Remove p) = (p = t)"
| "temp_action t a = False"


text \<open>
  Between two worlds only temporary files were touched: every new action is a
  temporary one, and every location that existed keeps its entry.
\<close>

definition temp_only :: "path \<Rightarrow> world \<Rightarrow> world \<Rightarrow> bool" where
  "temp_only t w w' =
     ((\<exists>new. actions w' = actions w @ new \<and> list_all (temp_action t) new) \<and>
      (\<forall>q. exists (files w) q \<longrightarrow> lookup (files w') q = lookup (files w) q))"

text \<open>
  An action was checked: the path or pair it was issued on does not match the ignore
  patterns. Temporary files are not subject to the patterns.
\<close>

fun checked :: "updater \<Rightarrow> string list \<Rightarrow> action \<Rightarrow> bool" where
  "checked u pats (Copyfile s d) = (\<not> must_ignore u [s, d] pats)"
| "checked u pats (Copytree s d) = (\<not> must_ignore u [s, d] pats)"
| "checked u pats (Remove p) = (\<not> must_ignore u [p] pats)"
| "checked u pats (Mktemp p) = True"


text \<open>Between two worlds the patterns stayed the same and every new action was checked.\<close>

definition only_checked :: "updater \<Rightarrow> world \<Rightarrow> world \<Rightarrow> bool" where
  "only_checked u w w' =
     (ignores w' = ignores w \<and>
      (\<exists>new. actions w' = actions w @ new \<and> list_all (checked u (ignores w)) new))"

text \<open>A string has two slashes in a row; a path component is not empty and has no slash.\<close>

fun has_dslash :: "string \<Rightarrow> bool" where
  "has_dslash (x # y # zs) = ((x = CHR ''/'' \<and> y = CHR ''/'') \<or> has_dslash (y # zs))"
| "has_dslash s = False"


definition good :: "string \<Rightarrow> bool" where
  "good c = (c \<noteq> [] \<and> CHR ''/'' \<notin> set c)"

subsection \<open>Example data\<close>

text \<open>
  An updater for the examples: patterns match a path literally, and a template is a
  regular file whose content starts with two braces.
\<close>

definition demo_updater :: updater where
  "demo_updater =
     \<lparr>dotfiles = [], dotroot = ''/repo'', home = ''/home/u'', cwd = ''/'',
      expandvars = (\<lambda>s. s), dry = False, safe = False, debug = False, ignore = [],
      showpatch = False,
      fnmatch = (\<lambda>p i. p = i),
      templategen_is_template =
        (\<lambda>fs p. case lookup fs p of Some (F c m) \<Rightarrow> prefix ''{{'' c | _ \<Rightarrow> False),
      templategen_generate = (\<lambda>fs p. ''rendered'')\<rparr>"

definition demo_world :: "fs \<Rightarrow> world" where
  "demo_world fs =
     \<lparr>files = fs, actions = [], log = [], answers = (\<lambda>n. False), asked = 0, clock = 10,
      ignores = []\<rparr>"

text \<open>A profile with two records for the same key and destination, and a third one.\<close>

definition three_dotfiles :: "dotfile list" where
  "three_dotfiles =
     [\<lparr>key = ''f_vimrc'', dst = ''~/.vimrc'', src = ''vimrc'', trans_w = None, upignore = []\<rparr>,
      \<lparr>key = ''f_vimrc'', dst = ''~/.vimrc'', src = ''vimrc2'', trans_w = None, upignore = []\<rparr>,
      \<lparr>key = ''f_bashrc'', dst = ''~/.bashrc'', src = ''bashrc'', trans_w = None, upignore = []\<rparr>]"

definition template_fs :: fs where
  "template_fs =
     [([''home''], D), ([''home'', ''vimrc''], F ''set nu'' 5),
      ([''repo''], D), ([''repo'', ''vimrc''], F ''{{@@ x @@}}'' 3)]"

definition differing_fs :: fs where
  "differing_fs =
     [([''home''], D), ([''home'', ''vimrc''], F ''set nu'' 5),
      ([''repo''], D), ([''repo'', ''vimrc''], F ''set nonu'' 3)]"

text \<open>A dotfile with a write transformation that succeeds and leaves a file.\<close>

definition demo_trans :: trans where
  "demo_trans = \<lparr>tkey = ''decrypt'', transform = (\<lambda>fs p tmp. (True, Some ''plain''))\<rparr>"

definition demo_dotfile :: dotfile where
  "demo_dotfile =
     \<lparr>key = ''f_vimrc'', dst = ''/home/vimrc'', src = ''vimrc'', trans_w = Some demo_trans, upignore = []\<rparr>"

text \<open>A deployed file whose managed copy is missing.\<close>

definition unmanaged_fs :: fs where
  "unmanaged_fs = [([''home''], D), ([''home'', ''vimrc''], F ''set nu'' 5), ([''repo''], D)]"




section \<open>Properties\<close>

subsection \<open>Logging leaves the rest of the world alone\<close>

lemma emit_sel [simp]:
  "files (emit e w) = files w" "actions (emit e w) = actions w" "ignores (emit e w) = ignores w"
  "answers (emit e w) = answers w" "asked (emit e w) = asked w" "clock (emit e w) = clock w"
  by (simp_all add: emit_def)

lemma dbg_sel [simp]:
  "files (dbg u m w) = files w" "actions (dbg u m w) = actions w" "ignores (dbg u m w) = ignores w"
  "answers (dbg u m w) = answers w" "asked (dbg u m w) = asked w" "clock (dbg u m w) = clock w"
  by (simp_all add: dbg_def)

lemma ignore_paths_sel [simp]:
  "fst (ignore_paths u ps w) = must_ignore u ps (ignores w)"
  "files (snd (ignore_paths u ps w)) = files w" "actions (snd (ignore_paths u ps w)) = actions w"
  "ignores (snd (ignore_paths u ps w)) = ignores w" "answers (snd (ignore_paths u ps w)) = answers w"
  "asked (snd (ignore_paths u ps w)) = asked w" "clock (snd (ignore_paths u ps w)) = clock w"
  by (simp_all add: ignore_paths_def)

lemma is_template_sel [simp]:
  "fst (is_template u p w) = templategen_is_template u (files w) p"
  "files (snd (is_template u p w)) = files w" "actions (snd (is_template u p w)) = actions w"
  "ignores (snd (is_template u p w)) = ignores w" "answers (snd (is_template u p w)) = answers w"
  "asked (snd (is_template u p w)) = asked w" "clock (snd (is_template u p w)) = clock w"
  by (simp_all add: is_template_def)

lemma overwrite_sel [simp]:
  "fst (overwrite u s d w) = (safe u \<longrightarrow> answers w (asked w))"
  "files (snd (overwrite u s d w)) = files w" "actions (snd (overwrite u s d w)) = actions w"
  "ignores (snd (overwrite u s d w)) = ignores w" "answers (snd (overwrite u s d w)) = answers w"
  "clock (snd (overwrite u s d w)) = clock w"
  by (simp_all add: overwrite_def ask_def Let_def split_beta)

lemma confirm_rm_r_sel [simp]:
  "fst (confirm_rm_r u d w) = (safe u \<longrightarrow> answers w (asked w))"
  "files (snd (confirm_rm_r u d w)) = files w" "actions (snd (confirm_rm_r u d w)) = actions w"
  "ignores (snd (confirm_rm_r u d w)) = ignores w" "answers (snd (confirm_rm_r u d w)) = answers w"
  "clock (snd (confirm_rm_r u d w)) = clock w"
  by (simp_all add: confirm_rm_r_def ask_def Let_def split_beta)

lemma drop_value_sel [simp]:
  "snd (drop_value r) = snd r"
  "fst (drop_value r) = (case fst r of Return x \<Rightarrow> Return () | Raise e \<Rightarrow> Raise e)"
  by (cases r; cases "fst r"; simp add: drop_value_def)+

subsection \<open>Lookup: unique, missing and ambiguous records\<close>

lemma get_dotfile_by_key_unique:
  "filter (\<lambda>d. key d = k) (dotfiles u) = [d] \<Longrightarrow> get_dotfile_by_key u k w = (Some d, w)"
  by (simp add: get_dotfile_by_key_def)

lemma get_dotfile_by_key_missing:
  "filter (\<lambda>d. key d = k) (dotfiles u) = [] \<Longrightarrow>
   get_dotfile_by_key u k w = (None, emit (Err (''key '' @ quoted k @ '' not found!'')) w)"
  by (simp add: get_dotfile_by_key_def)

lemma get_dotfile_by_key_many:
  "length (filter (\<lambda>d. key d = k) (dotfiles u)) > 1 \<Longrightarrow>
   fst (get_dotfile_by_key u k w) = None"
  by (auto simp add: get_dotfile_by_key_def Let_def)

lemma get_dotfile_by_path_unique:
  "filter (\<lambda>d. dst d = p) (dotfiles u) = [d] \<Longrightarrow> get_dotfile_by_path u p w = (Some d, w)"
  by (simp add: get_dotfile_by_path_def)

lemma get_dotfile_by_path_missing:
  "filter (\<lambda>d. dst d = p) (dotfiles u) = [] \<Longrightarrow>
   get_dotfile_by_path u p w = (None, emit (Err (quoted p @ '' is not managed!'')) w)"
  by (simp add: get_dotfile_by_path_def)

lemma get_dotfile_by_path_many:
  "length (filter (\<lambda>d. dst d = p) (dotfiles u)) > 1 \<Longrightarrow>
   fst (get_dotfile_by_path u p w) = None"
  by (auto simp add: get_dotfile_by_path_def Let_def)

text \<open>
  C6. Lookup returns the single matching record, and no record when none or several
  match; but the message for several matches is built from the sources of every
  dotfile of the profile, not of the matching ones. With two records sharing the key
  \<open>f_vimrc\<close> (and the destination \<open>~/.vimrc\<close>) and an unrelated third record, the
  matching sources are \<open>vimrc\<close> and \<open>vimrc2\<close>, and both lookups report
  \<open>vimrc,vimrc2,bashrc\<close>.
\<close>

theorem lookup_ambiguous_lists_every_dotfile:
  "map src (filter (\<lambda>d. key d = ''f_vimrc'') three_dotfiles) = [''vimrc'', ''vimrc2''] \<and>
   map src (filter (\<lambda>d. dst d = ''~/.vimrc'') three_dotfiles) = [''vimrc'', ''vimrc2''] \<and>
   get_dotfile_by_key (u\<lparr>dotfiles := three_dotfiles\<rparr>) ''f_vimrc'' w =
     (None, emit (Err ''multiple dotfiles found: vimrc,vimrc2,bashrc'') w) \<and>
   get_dotfile_by_path (u\<lparr>dotfiles := three_dotfiles\<rparr>) ''~/.vimrc'' w =
     (None, emit (Err ''multiple dotfiles found: vimrc,vimrc2,bashrc'') w)"
  by (simp add: three_dotfiles_def get_dotfile_by_key_def get_dotfile_by_path_def)

subsection \<open>Filesystem facts\<close>

lemma fresh_tmp_not_key: "fresh_tmp fs \<notin> fst ` set fs"
proof
  assume "fresh_tmp fs \<in> fst ` set fs"
  then obtain e where m: "(fresh_tmp fs, e) \<in> set fs" by auto
  let ?n = "replicate (Suc (sum_list (map length (concat (map fst fs))))) CHR ''t''"
  have "?n \<in> set (fresh_tmp fs)" by (simp add: fresh_tmp_def)
  with m have "?n \<in> set (concat (map fst fs))" by force
  then have "length ?n \<in> set (map length (concat (map fst fs)))"
    by (simp only: set_map) (rule imageI)
  then have "length ?n \<le> sum_list (map length (concat (map fst fs)))"
    by (rule member_le_sum_list) simp_all
  then show False by simp
qed

lemma fresh_tmp_nonempty: "fresh_tmp fs \<noteq> []"
  by (simp add: fresh_tmp_def)

lemma lookup_fresh_tmp: "lookup fs (fresh_tmp fs) = None"
  using fresh_tmp_not_key[of fs] by (simp add: lookup_def fresh_tmp_nonempty map_of_eq_None_iff)

lemma lookup_root [simp]: "lookup fs [] = Some D"
  by (simp add: lookup_def)

lemma lookup_store: "lookup (store p e fs) q = (if q = [] then Some D else if q = p then Some e else lookup fs q)"
  by (induction fs) (auto simp: lookup_def store_def)

subsection \<open>File sync\<close>

text \<open>
  C1. When the pair is not ignored and the managed file \<open>right\<close> is a template,
  \<open>_handle_file\<close> returns failure after the warning; with \<open>showpatch\<close> the patch recipe
  is the last warning and the only mutation is the temporary file of the recipe;
  nothing is copied, every other location keeps its entry, in particular \<open>right\<close>; and
  the dry-run and safe-mode flags make no difference.
\<close>

theorem template_is_never_written:
  assumes "\<not> must_ignore u [left, right] (ignores w)"
    and "templategen_is_template u (files w) right"
  shows "(\<exists>w'. handle_file u left right compare w = (Return False, w') \<and>
            Warn (pstr right @ '' uses template, update manually'') \<in> set (log w') \<and>
            (showpatch u \<longrightarrow> (\<exists>recipe. last (log w') = Warn (''try patching with: '' @ recipe))) \<and>
            actions w' = actions w @ (if showpatch u then [Mktemp (fresh_tmp (files w))] else []) \<and>
            (\<forall>p. p \<noteq> fresh_tmp (files w) \<longrightarrow> lookup (files w') p = lookup (files w) p) \<and>
            (exists (files w) right \<longrightarrow> lookup (files w') right = lookup (files w) right)) \<and>
         handle_file (u\<lparr>dry := d, safe := s\<rparr>) left right compare w = handle_file u left right compare w"
  using assms lookup_fresh_tmp[of "files w"]
  by (auto simp: handle_file_def ignore_paths_def is_template_def dbg_def emit_def show_patch_def
      write_to_tmpfile_def resolve_template_def Let_def lookup_store must_ignore_def exists_def)

theorem template_is_never_written_witness:
  "\<not> must_ignore (demo_updater\<lparr>showpatch := True\<rparr>) [[''home'', ''vimrc''], [''repo'', ''vimrc'']] (ignores (demo_world template_fs)) \<and>
   templategen_is_template (demo_updater\<lparr>showpatch := True\<rparr>) (files (demo_world template_fs)) [''repo'', ''vimrc''] \<and>
   fst (handle_file (demo_updater\<lparr>showpatch := True\<rparr>) [''home'', ''vimrc''] [''repo'', ''vimrc''] True (demo_world template_fs)) = Return False \<and>
   lookup (files (snd (handle_file (demo_updater\<lparr>showpatch := True\<rparr>) [''home'', ''vimrc''] [''repo'', ''vimrc''] True (demo_world template_fs)))) [''repo'', ''vimrc'']
     = Some (F ''{{@@ x @@}}'' 3)"
proof -
  let ?u = "demo_updater\<lparr>showpatch := True\<rparr>"
  let ?w = "demo_world template_fs"
  have h1: "\<not> must_ignore ?u [[''home'', ''vimrc''], [''repo'', ''vimrc'']] (ignores ?w)"
    by (simp add: must_ignore_def demo_world_def)
  have h2: "templategen_is_template ?u (files ?w) [''repo'', ''vimrc'']"
    by (simp add: demo_updater_def demo_world_def template_fs_def lookup_def)
  have h3: "exists (files ?w) [''repo'', ''vimrc'']"
    by (simp add: exists_def demo_world_def template_fs_def lookup_def)
  have h4: "lookup (files ?w) [''repo'', ''vimrc''] = Some (F ''{{@@ x @@}}'' 3)"
    by (simp add: demo_world_def template_fs_def lookup_def)
  from template_is_never_written [OF h1 h2, where compare = True and d = False and s = False] h3 h4
  have "fst (handle_file ?u [''home'', ''vimrc''] [''repo'', ''vimrc''] True ?w) = Return False \<and>
        lookup (files (snd (handle_file ?u [''home'', ''vimrc''] [''repo'', ''vimrc''] True ?w))) [''repo'', ''vimrc'']
          = Some (F ''{{@@ x @@}}'' 3)"
    by (elim conjE exE) simp
  with h1 h2 show ?thesis by simp
qed

lemma copyfile_files_only:
  "fst (copyfile s d w) = Raise IOError \<Longrightarrow> files w' = files w \<Longrightarrow> copyfile s d w' = (Raise IOError, w')"
  by (auto simp: copyfile_def split: option.splits entry.splits if_splits)

text \<open>
  C8. When \<open>_handle_file\<close> reaches the copy (the pair is not ignored, \<open>right\<close> is not a
  template, the files differ or are not compared, the prompt is accepted or not asked,
  no dry-run) and \<open>shutil.copyfile\<close> raises an \<open>IOError\<close>, the method returns failure,
  the last line of the log is the warning, and nothing was mutated: no exception
  reaches the caller.
\<close>

theorem copy_error_is_caught:
  assumes "\<not> must_ignore u [left, right] (ignores w)"
    and "\<not> templategen_is_template u (files w) right"
    and "compare \<longrightarrow> cmp (files w) left right = Return False"
    and "safe u \<longrightarrow> answers w (asked w)"
    and "\<not> dry u"
    and "fst (copyfile left right w) = Raise IOError"
  shows "\<exists>w'. handle_file u left right compare w = (Return False, w') \<and>
              last (log w') = Warn (pstr left @ '' update failed, do manually: IOError'') \<and>
              files w' = files w \<and> actions w' = actions w"
proof -
  have c: "\<And>w'. files w' = files w \<Longrightarrow> copyfile left right w' = (Raise IOError, w')"
    using assms(6) by (rule copyfile_files_only)
  show ?thesis
    using assms(1-5)
    by (auto simp: handle_file_def ignore_paths_def is_template_def dbg_def emit_def Let_def
        overwrite_def ask_def try_copy_def c split: if_splits)
qed

theorem copy_error_is_caught_witness:
  "\<not> must_ignore demo_updater [[''home'', ''gone''], [''repo'', ''vimrc'']] (ignores (demo_world [([''repo''], D)])) \<and>
   fst (copyfile [''home'', ''gone''] [''repo'', ''vimrc''] (demo_world [([''repo''], D)])) = Raise IOError \<and>
   fst (handle_file demo_updater [''home'', ''gone''] [''repo'', ''vimrc''] False (demo_world [([''repo''], D)])) = Return False"
proof -
  let ?w = "demo_world [([''repo''], D)]"
  have h1: "\<not> must_ignore demo_updater [[''home'', ''gone''], [''repo'', ''vimrc'']] (ignores ?w)"
    by (simp add: must_ignore_def demo_world_def)
  have h2: "\<not> templategen_is_template demo_updater (files ?w) [''repo'', ''vimrc'']"
    by (simp add: demo_updater_def demo_world_def lookup_def)
  have h3: "False \<longrightarrow> cmp (files ?w) [''home'', ''gone''] [''repo'', ''vimrc''] = Return False"
    by simp
  have h4: "safe demo_updater \<longrightarrow> answers ?w (asked ?w)"
    by (simp add: demo_updater_def)
  have h5: "\<not> dry demo_updater"
    by (simp add: demo_updater_def)
  have h6: "fst (copyfile [''home'', ''gone''] [''repo'', ''vimrc''] ?w) = Raise IOError"
    by (simp add: copyfile_def demo_world_def lookup_def)
  from copy_error_is_caught [OF h1 h2 h3 h4 h5 h6]
  have "fst (handle_file demo_updater [''home'', ''gone''] [''repo'', ''vimrc''] False ?w) = Return False"
    by auto
  with h1 h6 show ?thesis by simp
qed

text \<open>The only exception that leaves \<open>_handle_file\<close> is the one of \<open>filecmp.cmp\<close>.\<close>

lemma handle_file_raises:
  "fst (handle_file u left right compare w) = Raise e \<Longrightarrow> compare \<and> cmp (files w) left right = Raise e"
  by (auto simp: handle_file_def ignore_paths_def is_template_def dbg_def emit_def Let_def
        overwrite_def ask_def try_copy_def show_patch_def write_to_tmpfile_def
        split: if_splits prod.splits result.splits exn.splits)

text \<open>
  C10. For a pair that is not ignored, whose managed file is not a template and that
  differs (or is not compared), safe mode asks the overwrite question whether or not
  dry-run is set. Declining returns failure with no mutation, the question being the
  last thing logged; accepting under dry-run logs the intended copy right after the
  question and mutates nothing.
\<close>

theorem prompt_comes_before_dry_run:
  assumes "\<not> must_ignore u [left, right] (ignores w)"
    and "\<not> templategen_is_template u (files w) right"
    and "compare \<longrightarrow> cmp (files w) left right = Return False"
    and "safe u"
  shows "\<exists>r w'. handle_file (u\<lparr>dry := d\<rparr>) left right compare w = (Return r, w') \<and>
           Ask (''Overwrite '' @ quoted (pstr right) @ '' with '' @ quoted (pstr left) @ ''?'') \<in> set (log w') \<and>
           asked w' = Suc (asked w) \<and>
           (\<not> answers w (asked w) \<longrightarrow>
              \<not> r \<and> files w' = files w \<and> actions w' = actions w \<and>
              last (log w') = Ask (''Overwrite '' @ quoted (pstr right) @ '' with '' @ quoted (pstr left) @ ''?'')) \<and>
           (answers w (asked w) \<and> d \<longrightarrow>
              r \<and> files w' = files w \<and> actions w' = actions w \<and>
              (\<exists>pre. log w' = pre @ [Ask (''Overwrite '' @ quoted (pstr right) @ '' with '' @ quoted (pstr left) @ ''?''),
                                       Dry (''would cp '' @ pstr left @ '' '' @ pstr right)]))"
  using assms
  by (auto simp: handle_file_def ignore_paths_def is_template_def dbg_def emit_def Let_def
        overwrite_def ask_def try_copy_def copyfile_def must_ignore_def
        split: if_splits option.splits entry.splits)

theorem prompt_comes_before_dry_run_witness:
  "\<not> must_ignore demo_updater [[''home'', ''vimrc''], [''repo'', ''vimrc'']] (ignores (demo_world differing_fs)) \<and>
   \<not> templategen_is_template (demo_updater\<lparr>safe := True\<rparr>) (files (demo_world differing_fs)) [''repo'', ''vimrc''] \<and>
   cmp (files (demo_world differing_fs)) [''home'', ''vimrc''] [''repo'', ''vimrc''] = Return False \<and>
   \<not> answers (demo_world differing_fs) (asked (demo_world differing_fs)) \<and>
   fst (handle_file (demo_updater\<lparr>safe := True, dry := True\<rparr>) [''home'', ''vimrc''] [''repo'', ''vimrc''] True (demo_world differing_fs))
     = Return False \<and>
   fst (handle_file (demo_updater\<lparr>safe := True, dry := False\<rparr>) [''home'', ''vimrc''] [''repo'', ''vimrc''] True (demo_world differing_fs))
     = Return False"
proof -
  let ?u = "demo_updater\<lparr>safe := True\<rparr>"
  let ?w = "demo_world differing_fs"
  have h1: "\<not> must_ignore ?u [[''home'', ''vimrc''], [''repo'', ''vimrc'']] (ignores ?w)"
    by (simp add: must_ignore_def demo_world_def)
  have h2: "\<not> templategen_is_template ?u (files ?w) [''repo'', ''vimrc'']"
    by (simp add: demo_updater_def demo_world_def differing_fs_def lookup_def)
  have h3: "cmp (files ?w) [''home'', ''vimrc''] [''repo'', ''vimrc''] = Return False"
    by (simp add: cmp_def demo_world_def differing_fs_def lookup_def)
  then have h3': "True \<longrightarrow> cmp (files ?w) [''home'', ''vimrc''] [''repo'', ''vimrc''] = Return False"
    by simp
  have h4: "safe ?u" by simp
  have h5: "\<not> answers ?w (asked ?w)" by (simp add: demo_world_def)
  from prompt_comes_before_dry_run [OF h1 h2 h3' h4, where d = True] h5
  have a: "fst (handle_file (?u\<lparr>dry := True\<rparr>) [''home'', ''vimrc''] [''repo'', ''vimrc''] True ?w) = Return False"
    by (elim conjE exE) simp
  from prompt_comes_before_dry_run [OF h1 h2 h3' h4, where d = False] h5
  have b: "fst (handle_file (?u\<lparr>dry := False\<rparr>) [''home'', ''vimrc''] [''repo'', ''vimrc''] True ?w) = Return False"
    by (elim conjE exE) simp
  from h1 h2 h3 h5 a b show ?thesis by (simp add: must_ignore_def)
qed

subsection \<open>Update by path\<close>



subsection \<open>Dry-run\<close>

lemma quiet_refl [simp]: "quiet w w"
  by (simp add: quiet_def)

lemma quiet_cong: "files a = files b \<Longrightarrow> actions a = actions b \<Longrightarrow> ignores a = ignores b \<Longrightarrow> quiet w a = quiet w b"
  by (simp add: quiet_def)

lemma quiet_emit [simp]: "quiet w (emit e w') = quiet w w'"
  by (rule quiet_cong) simp_all

lemma quiet_dbg [simp]: "quiet w (dbg u m w') = quiet w w'"
  by (rule quiet_cong) simp_all

lemma quiet_ignore [simp]: "quiet w (snd (ignore_paths u ps w')) = quiet w w'"
  by (rule quiet_cong) simp_all

lemma for_each_dry:
  assumes "\<And>x w w0. fst (body x w) = Return () \<and> quiet w0 (snd (body x w)) = quiet w0 w"
  shows "fst (for_each body xs w) = Return () \<and> quiet w0 (snd (for_each body xs w)) = quiet w0 w"
proof (induction xs arbitrary: w)
  case Nil then show ?case by simp
next
  case (Cons x xs)
  obtain w1 where b: "body x w = (Return (), w1)"
    using assms[of x w w] by (cases "body x w") auto
  have "quiet w0 w1 = quiet w0 w" using assms[of x w w0] b by simp
  then show ?case using Cons.IH[of w1] b by simp
qed

lemma add_dir_dry:
  "dry u \<Longrightarrow> fst (add_dir u l r n w) = Return () \<and> quiet w0 (snd (add_dir u l r n w)) = quiet w0 w"
  by (simp add: add_dir_def Let_def split_beta)

lemma remove_dir_dry:
  "dry u \<Longrightarrow> fst (remove_dir u r n w) = Return () \<and> quiet w0 (snd (remove_dir u r n w)) = quiet w0 w"
  by (simp add: remove_dir_def Let_def split_beta)

lemma sync_file_dry:
  "dry u \<Longrightarrow> fst (sync_file u l r n w) = Return () \<and> quiet w0 (snd (sync_file u l r n w)) = quiet w0 w"
  by (simp add: sync_file_def Let_def split_beta)

lemma add_file_dry:
  "dry u \<Longrightarrow> fst (add_file u l r n w) = Return () \<and> quiet w0 (snd (add_file u l r n w)) = quiet w0 w"
  by (simp add: add_file_def Let_def split_beta)

lemma remove_file_dry:
  "dry u \<Longrightarrow> fst (remove_file u r n w) = Return () \<and> quiet w0 (snd (remove_file u r n w)) = quiet w0 w"
  by (simp add: remove_file_def Let_def split_beta)

lemma and_then_Return:
  "fst r = Return () \<Longrightarrow> and_then r f = f (snd r)"
  by (cases r) (simp add: and_then_def)

lemma case_result_Return:
  "fst r = Return x \<Longrightarrow>
   (case r of (Raise e, w1) \<Rightarrow> A e w1 | (Return y, w1) \<Rightarrow> B y w1) = B x (snd r)"
  by (cases r) simp

lemma merge_subdirs_dry_aux:
  assumes "\<And>n d w w0. (n, d) \<in> set subs \<Longrightarrow>
             fst (merge_dirs u d w) = Return True \<and> quiet w0 (snd (merge_dirs u d w)) = quiet w0 w"
  shows "fst (merge_subdirs u subs w) = Return () \<and> quiet w0 (snd (merge_subdirs u subs w)) = quiet w0 w"
  using assms
proof (induction subs arbitrary: w)
  case Nil then show ?case by simp
next
  case (Cons a subs)
  obtain n d where a: "a = (n, d)" by (cases a)
  have 1: "fst (merge_dirs u d w) = Return True" using Cons.prems[of n d] a by simp
  have 2: "\<And>w0. quiet w0 (snd (merge_dirs u d w)) = quiet w0 w" using Cons.prems[of n d] a by simp
  have 3: "fst (merge_subdirs u subs (snd (merge_dirs u d w))) = Return () \<and>
        quiet w0 (snd (merge_subdirs u subs (snd (merge_dirs u d w)))) = quiet w0 (snd (merge_dirs u d w))"
    by (rule Cons.IH) (use Cons.prems in auto)
  show ?case
    unfolding a by (simp add: case_result_Return[OF 1] 2 3)
qed

lemma merge_dirs_dry:
  "dry u \<Longrightarrow> fst (merge_dirs u diff w) = Return True \<and> quiet w0 (snd (merge_dirs u diff w)) = quiet w0 w"
proof (induction diff arbitrary: w w0)
  case (Dircmp left right lonly ronly dfiles ffiles cfunny subs)
  have sub: "fst (merge_subdirs u subs w') = Return () \<and> quiet w0' (snd (merge_subdirs u subs w')) = quiet w0' w'" for w' w0'
  proof (rule merge_subdirs_dry_aux)
    fix n d w w0 assume "(n, d) \<in> set subs"
    then show "fst (merge_dirs u d w) = Return True \<and> quiet w0 (snd (merge_dirs u d w)) = quiet w0 w"
      using Dircmp.IH[of "(n, d)" d] Dircmp.prems by auto
  qed
  show ?case
    using Dircmp.prems
    by (simp add: Let_def split_beta and_then_Return sub
        for_each_dry[of "add_dir u left right", OF add_dir_dry]
        for_each_dry[of "remove_dir u right", OF remove_dir_dry]
        for_each_dry[of "sync_file u left right", OF sync_file_dry]
        for_each_dry[of "add_file u left right", OF add_file_dry]
        for_each_dry[of "remove_file u right", OF remove_file_dry])
qed

lemma handle_dir_dry:
  "dry u \<Longrightarrow> quiet w0 (snd (handle_dir u l r w)) = quiet w0 w"
  by (simp add: handle_dir_def Let_def split_beta merge_dirs_dry)

lemma temp_only_refl [simp]: "temp_only t w w"
  by (simp add: temp_only_def)

lemma temp_only_cong: "files a = files b \<Longrightarrow> actions a = actions b \<Longrightarrow> temp_only t w a = temp_only t w b"
  by (simp add: temp_only_def)

lemma temp_only_emit [simp]: "temp_only t w (emit e w') = temp_only t w w'"
  by (rule temp_only_cong) simp_all

lemma temp_only_dbg [simp]: "temp_only t w (dbg u m w') = temp_only t w w'"
  by (rule temp_only_cong) simp_all

lemma temp_only_ignore_paths [simp]: "temp_only t w (snd (ignore_paths u ps w')) = temp_only t w w'"
  by (rule temp_only_cong) simp_all

lemma temp_only_is_template [simp]: "temp_only t w (snd (is_template u p w')) = temp_only t w w'"
  by (rule temp_only_cong) simp_all

lemma temp_only_overwrite [simp]: "temp_only t w (snd (overwrite u s d w')) = temp_only t w w'"
  by (rule temp_only_cong) simp_all

lemma temp_only_ignores [simp]: "temp_only t w (w'\<lparr>ignores := x\<rparr>) = temp_only t w w'"
  by (rule temp_only_cong) simp_all

lemma temp_only_quiet: "quiet w1 w2 \<Longrightarrow> temp_only t w w2 = temp_only t w w1"
  by (rule temp_only_cong) (simp_all add: quiet_def)

lemma lookup_remove:
  "lookup (filter (\<lambda>(q, e). \<not> prefix p q) fs) q =
     (if q = [] then Some D else if prefix p q then None else lookup fs q)"
  by (induction fs) (auto simp: lookup_def)

lemma exists_not_below_fresh:
  assumes "exists fs q" shows "\<not> prefix (fresh_tmp fs) q"
proof
  assume pre: "prefix (fresh_tmp fs) q"
  let ?n = "replicate (Suc (sum_list (map length (concat (map fst fs))))) CHR ''t''"
  from pre have "q \<noteq> []" by (auto simp: fresh_tmp_def)
  with assms obtain e where m: "(q, e) \<in> set fs"
    by (auto simp: exists_def lookup_def dest: map_of_SomeD)
  from pre have "?n \<in> set q" by (auto simp: fresh_tmp_def prefix_def)
  with m have "?n \<in> set (concat (map fst fs))" by force
  then have "length ?n \<in> set (map length (concat (map fst fs)))"
    by (simp only: set_map) (rule imageI)
  then have "length ?n \<le> sum_list (map length (concat (map fst fs)))"
    by (rule member_le_sum_list) simp_all
  then show False by simp
qed

lemma temp_only_store_fresh:
  assumes "temp_only t w w1" and "files w1 = fs" and "actions w1 = acts"
  shows "temp_only t w (w1\<lparr>files := store (fresh_tmp fs) e fs,
                            actions := acts @ [Mktemp (fresh_tmp fs)],
                            clock := c\<rparr>)"
proof -
  have "lookup (store (fresh_tmp (files w1)) e (files w1)) q = lookup (files w) q" if "exists (files w) q" for q
  proof -
    from that assms have eq: "lookup (files w1) q = lookup (files w) q" by (simp add: temp_only_def)
    with that have "exists (files w1) q" by (simp add: exists_def)
    then have "q \<noteq> fresh_tmp (files w1)" using exists_not_below_fresh[of "files w1" q] by auto
    then show ?thesis using eq by (simp add: lookup_store)
  qed
  then show ?thesis using assms by (auto simp: temp_only_def)
qed

lemma temp_only_remove:
  assumes "temp_only t w w1" and "t = fresh_tmp (files w)"
  shows "temp_only t w (snd (remove t w1))"
proof (cases "t = [] \<or> \<not> exists (files w1) t")
  case True
  then show ?thesis using assms by (simp add: remove_def)
next
  case False
  have "lookup (filter (\<lambda>(q, e). \<not> prefix t q) (files w1)) q = lookup (files w) q" if "exists (files w) q" for q
  proof -
    from that assms have eq: "lookup (files w1) q = lookup (files w) q" by (simp add: temp_only_def)
    have "\<not> prefix t q" using exists_not_below_fresh[OF that] assms(2) by simp
    then show ?thesis using eq by (simp add: lookup_remove)
  qed
  then show ?thesis using assms False by (auto simp: temp_only_def remove_def)
qed

lemma temp_only_show_patch:
  "temp_only t w w1 \<Longrightarrow> temp_only t w (snd (show_patch u tp fp w1))"
  by (simp add: show_patch_def write_to_tmpfile_def Let_def temp_only_store_fresh)

lemma handle_file_dry:
  assumes "dry u" and "temp_only t w w1"
  shows "temp_only t w (snd (handle_file u l r c w1))"
  using assms
  by (auto simp: handle_file_def Let_def split_beta try_copy_def temp_only_show_patch
      split: result.splits)

lemma dispatch_dry:
  assumes "dry u" and "temp_only t w w1" and "t = fresh_tmp (files w)" and "np = None \<or> np = Some t"
  shows "temp_only t w (snd (dispatch u l r np w1))"
proof -
  let ?h = "if isdir (files w1) l then handle_dir u l r w1 else handle_file u l r True w1"
  have h: "temp_only t w (snd ?h)"
    using assms(1,2) handle_dir_dry[of u w1 l r w1]
    by (auto simp: handle_file_dry temp_only_quiet)
  obtain res w2 where hw: "?h = (res, w2)" by (cases ?h)
  with h have t2: "temp_only t w w2" by simp
  from temp_only_remove[OF t2 assms(3)] t2 assms(4) show ?thesis
    unfolding dispatch_def hw
    by (auto split: result.splits option.splits prod.splits)
qed

lemma apply_trans_w_dry:
  assumes "temp_only t w w1" and "t = fresh_tmp (files w)" and "files w1 = files w"
  shows "temp_only t w (snd (apply_trans_w u p d tr w1)) \<and>
         (fst (apply_trans_w u p d tr w1) = None \<or> fst (apply_trans_w u p d tr w1) = Some t)"
proof -
  obtain ok out where tr: "transform tr (files w) p (fresh_tmp (files w)) = (ok, out)"
    by (cases "transform tr (files w) p (fresh_tmp (files w))")
  have rm: "temp_only (fresh_tmp (files w)) w (snd (remove (fresh_tmp (files w)) w2))"
    if "temp_only (fresh_tmp (files w)) w w2" for w2
    using that by (rule temp_only_remove) simp
  show ?thesis
  proof (cases out)
    case None
    then show ?thesis
      using tr assms by (simp add: apply_trans_w_def Let_def rm)
  next
    case (Some c)
    have "temp_only (fresh_tmp (files w)) w
            (w1'\<lparr>files := store (fresh_tmp (files w)) (F c k) (files w),
                  actions := actions w1 @ [Mktemp (fresh_tmp (files w))],
                  clock := k'\<rparr>)"
      if "temp_only (fresh_tmp (files w)) w w1'" "files w1' = files w" "actions w1' = actions w1" for w1' k k'
      using temp_only_store_fresh[OF that(1) that(2) that(3)] by simp
    then show ?thesis
      using Some tr assms by (simp add: apply_trans_w_def Let_def rm)
  qed
qed

text \<open>
  C4, as the code has it. Under dry-run \<open>_merge_dirs\<close> mutates nothing at all, and
  \<open>_update\<close> touches temporary files only: it may create temporary files (the output of
  the write transformation, the rendered template of the patch recipe) and remove the
  temporary file of the transformation; every location that existed before keeps its
  entry.
\<close>

theorem dry_run_mutates_temporaries_only:
  assumes "dry u"
  shows "files (snd (merge_dirs u diff w)) = files w \<and>
         actions (snd (merge_dirs u diff w)) = actions w \<and>
         (\<exists>new. actions (snd (update u p d w)) = actions w @ new \<and>
                list_all (temp_action (fresh_tmp (files w))) new) \<and>
         (\<forall>q. exists (files w) q \<longrightarrow> lookup (files (snd (update u p d w))) q = lookup (files w) q)"
proof -
  have m: "quiet w (snd (merge_dirs u diff w))"
    using merge_dirs_dry[OF assms, of diff w w] by simp
  let ?t = "fresh_tmp (files w)"
  let ?w0 = "w\<lparr>ignores := remdups (ignore u @ upignore d)\<rparr>"
  let ?w1 = "dbg u (''ignore pattern(s): '' @ ''['' @ join_str '', '' (map (\<lambda>i. [CHR 0x27] @ i @ [CHR 0x27]) (ignores ?w0)) @ '']'') ?w0"
  let ?l = "locate u (expanduser u p)"
  let ?r = "locate u (expanduser u (path_join (dotroot u) (src d)))"
  let ?w2 = "snd (ignore_paths u [?l, ?r] ?w1)"
  have f2: "files ?w2 = files w"
    by (simp add: ignore_paths_def dbg_def emit_def)
  have t2: "temp_only ?t w ?w2"
    by simp
  have "temp_only ?t w (snd (update u p d w))"
  proof (cases "trans_w d")
    case None
    then show ?thesis
      using t2 dispatch_dry[OF assms t2 refl, of None ?l ?r]
      by (simp add: update_def Let_def split_beta)
  next
    case (Some tr)
    from apply_trans_w_dry[OF t2 refl f2, of u p d tr]
    have a: "temp_only ?t w (snd (apply_trans_w u p d tr ?w2))"
      and b: "fst (apply_trans_w u p d tr ?w2) = None \<or> fst (apply_trans_w u p d tr ?w2) = Some ?t"
      by simp_all
    obtain np w3 where ap: "apply_trans_w u p d tr ?w2 = (np, w3)" by (cases "apply_trans_w u p d tr ?w2")
    with a b have a': "temp_only ?t w w3" and b': "np = None \<or> np = Some ?t" by simp_all
    show ?thesis
      using Some t2 ap a' b' dispatch_dry[OF assms a' refl, of "Some ?t" ?t ?r]
      by (auto simp: update_def Let_def split_beta)
  qed
  with m show ?thesis by (simp add: temp_only_def quiet_def)
qed

theorem dry_run_mutates_temporaries_only_witness:
  "dry (demo_updater\<lparr>dry := True\<rparr>) \<and>
   files (snd (merge_dirs (demo_updater\<lparr>dry := True\<rparr>)
                 (filecmp_dircmp differing_fs [''home''] [''repo'']) (demo_world differing_fs)))
     = differing_fs"
proof -
  have h: "dry (demo_updater\<lparr>dry := True\<rparr>)" by simp
  from dry_run_mutates_temporaries_only [OF h, of "filecmp_dircmp differing_fs [''home''] [''repo'']" "demo_world differing_fs"]
  show ?thesis by (simp add: demo_world_def)
qed

text \<open>
  C4, as stated, fails: with a write transformation, a dry-run of \<open>_update\<close> creates the
  temporary file of the transformation and removes it again with \<open>utils.remove\<close>.
\<close>

theorem dry_run_removes_temporary_file:
  "dry (demo_updater\<lparr>dry := True\<rparr>) \<and>
   actions (snd (update (demo_updater\<lparr>dry := True\<rparr>) ''/home/vimrc'' demo_dotfile (demo_world differing_fs)))
     = [Mktemp [replicate 27 CHR ''t''], Remove [replicate 27 CHR ''t'']]"
  by code_simp

subsection \<open>Temporary files\<close>

lemma exists_remove: "remove t w = (Return x, w') \<Longrightarrow> \<not> exists (files w') t"
  by (auto simp: remove_def exists_def lookup_remove split: if_splits)

lemma exists_fresh_tmp: "\<not> exists fs (fresh_tmp fs)"
  by (simp add: exists_def lookup_fresh_tmp)

lemma dispatch_cleans:
  "dispatch u l r (Some t) w = (Return x, w') \<Longrightarrow> \<not> exists (files w') t"
  by (auto simp: dispatch_def split: prod.splits result.splits if_splits dest: exists_remove)

lemma apply_trans_w_cleans:
  "apply_trans_w u p d tr w = (None, w') \<Longrightarrow> \<not> exists (files w') (fresh_tmp (files w))"
  "apply_trans_w u p d tr w = (Some t, w') \<Longrightarrow> t = fresh_tmp (files w)"
proof -
  have "\<not> exists (files (snd (remove (fresh_tmp (files w)) w2))) (fresh_tmp (files w))" for w2
    by (cases "remove (fresh_tmp (files w)) w2")
       (auto simp: remove_def exists_def lookup_remove fresh_tmp_nonempty split: if_splits)
  then show "apply_trans_w u p d tr w = (None, w') \<Longrightarrow> \<not> exists (files w') (fresh_tmp (files w))"
    by (auto simp: apply_trans_w_def Let_def split: prod.splits if_splits)
  show "apply_trans_w u p d tr w = (Some t, w') \<Longrightarrow> t = fresh_tmp (files w)"
    by (auto simp: apply_trans_w_def Let_def split: prod.splits if_splits)
qed

text \<open>
  C3, as the code has it. Whenever \<open>_update\<close> returns for a dotfile with a write
  transformation (the pair is ignored, the transformation fails, or the sync succeeds
  or fails), the temporary file of the transformation does not exist afterwards.
\<close>

theorem transformation_temp_file_is_removed:
  assumes "trans_w d = Some tr"
    and "update u p d w = (Return x, w')"
  shows "\<not> exists (files w') (fresh_tmp (files w))"
proof -
  let ?w0 = "w\<lparr>ignores := remdups (ignore u @ upignore d)\<rparr>"
  let ?w1 = "dbg u (''ignore pattern(s): '' @ ''['' @ join_str '', '' (map (\<lambda>i. [CHR 0x27] @ i @ [CHR 0x27]) (ignores ?w0)) @ '']'') ?w0"
  let ?l = "locate u (expanduser u p)"
  let ?r = "locate u (expanduser u (path_join (dotroot u) (src d)))"
  let ?w2 = "snd (ignore_paths u [?l, ?r] ?w1)"
  have f2: "files ?w2 = files w" by simp
  show ?thesis
  proof (cases "must_ignore u [?l, ?r] (remdups (ignore u @ upignore d))")
    case True
    with assms(2) have "files w' = files w"
      by (auto simp: update_def Let_def split_beta)
    then show ?thesis by (simp add: exists_fresh_tmp)
  next
    case False
    obtain np w3 where ap: "apply_trans_w u p d tr ?w2 = (np, w3)"
      by (cases "apply_trans_w u p d tr ?w2")
    show ?thesis
    proof (cases np)
      case None
      with ap assms False have "w' = w3"
        by (simp add: update_def Let_def split_beta)
      with apply_trans_w_cleans(1)[of u p d tr ?w2 w3] ap None f2 show ?thesis by simp
    next
      case (Some t)
      with apply_trans_w_cleans(2)[of u p d tr ?w2 t w3] ap f2 have t: "t = fresh_tmp (files w)" by simp
      from Some ap assms False have "dispatch u t ?r (Some t) w3 = (Return x, w')"
        by (simp add: update_def Let_def split_beta)
      then show ?thesis using t by (auto dest: dispatch_cleans)
    qed
  qed
qed

theorem transformation_temp_file_is_removed_witness:
  "trans_w demo_dotfile = Some demo_trans \<and>
   fst (update demo_updater ''/home/vimrc'' demo_dotfile (demo_world differing_fs)) = Return True \<and>
   \<not> exists (files (snd (update demo_updater ''/home/vimrc'' demo_dotfile (demo_world differing_fs))))
        (fresh_tmp (files (demo_world differing_fs)))"
proof -
  have h1: "trans_w demo_dotfile = Some demo_trans" by (simp add: demo_dotfile_def)
  have r: "fst (update demo_updater ''/home/vimrc'' demo_dotfile (demo_world differing_fs)) = Return True"
    by code_simp
  then have h2: "update demo_updater ''/home/vimrc'' demo_dotfile (demo_world differing_fs)
      = (Return True, snd (update demo_updater ''/home/vimrc'' demo_dotfile (demo_world differing_fs)))"
    by (metis prod.collapse)
  from transformation_temp_file_is_removed [OF h1 h2] h1 r show ?thesis by simp
qed

text \<open>
  C3, as stated, fails twice. The temporary file of the patch recipe is never removed:
  the recipe logged for the user names it. And when the sync raises (here
  \<open>filecmp.cmp\<close>, the managed file being absent), \<open>_update\<close> is left before its clean-up
  and the temporary file of the transformation stays.
\<close>

theorem temporary_files_left_behind:
  "fst (update (demo_updater\<lparr>showpatch := True\<rparr>) ''/home/vimrc'' (demo_dotfile\<lparr>trans_w := None\<rparr>)
          (demo_world template_fs)) = Return False \<and>
   \<not> exists template_fs [replicate 27 CHR ''t''] \<and>
   exists (files (snd (update (demo_updater\<lparr>showpatch := True\<rparr>) ''/home/vimrc''
                         (demo_dotfile\<lparr>trans_w := None\<rparr>) (demo_world template_fs))))
     [replicate 27 CHR ''t''] \<and>
   fst (update demo_updater ''/home/vimrc'' demo_dotfile (demo_world unmanaged_fs)) = Raise IOError \<and>
   \<not> exists unmanaged_fs [replicate 18 CHR ''t''] \<and>
   exists (files (snd (update demo_updater ''/home/vimrc'' demo_dotfile (demo_world unmanaged_fs))))
     [replicate 18 CHR ''t'']"
  by code_simp

subsection \<open>Ignore patterns\<close>

lemma only_checked_refl [simp]: "only_checked u w w"
  by (simp add: only_checked_def)

lemma only_checked_cong:
  "actions a = actions b \<Longrightarrow> ignores a = ignores b \<Longrightarrow> only_checked u w a = only_checked u w b"
  by (simp add: only_checked_def)

lemma only_checked_emit [simp]: "only_checked u w (emit e w') = only_checked u w w'"
  by (rule only_checked_cong) simp_all

lemma only_checked_dbg [simp]: "only_checked u w (dbg u' m w') = only_checked u w w'"
  by (rule only_checked_cong) simp_all

lemma only_checked_ignore_paths [simp]: "only_checked u w (snd (ignore_paths u' ps w')) = only_checked u w w'"
  by (rule only_checked_cong) simp_all

lemma only_checked_is_template [simp]: "only_checked u w (snd (is_template u' p w')) = only_checked u w w'"
  by (rule only_checked_cong) simp_all

lemma only_checked_overwrite [simp]: "only_checked u w (snd (overwrite u' s d w')) = only_checked u w w'"
  by (rule only_checked_cong) simp_all

lemma only_checked_confirm [simp]: "only_checked u w (snd (confirm_rm_r u' d w')) = only_checked u w w'"
  by (rule only_checked_cong) simp_all










lemma only_checked_case_fst:
  assumes "only_checked u w (snd r)"
    and "\<And>w2. only_checked u w w2 \<Longrightarrow> only_checked u w (snd (f w2))"
  shows "only_checked u w (snd (case fst r of Return x \<Rightarrow> f (snd r) | Raise e \<Rightarrow> (Raise e, snd r)))"
  using assms by (cases r; cases "fst r") auto


















subsection \<open>Path normalization\<close>

lemma has_dslash_Cons: "a \<noteq> CHR ''/'' \<Longrightarrow> has_dslash (a # s) = has_dslash s"
  by (cases s) auto

lemma has_dslash_append: "CHR ''/'' \<notin> set x \<Longrightarrow> has_dslash (x @ s) = has_dslash s"
  by (induction x) (auto simp: has_dslash_Cons)

lemma has_dslash_tl: "has_dslash (tl s) \<Longrightarrow> has_dslash s"
  by (cases s rule: has_dslash.cases) auto

lemma has_dslash_mid: "has_dslash (a @ CHR ''/'' # CHR ''/'' # b)"
  by (induction a rule: has_dslash.induct) auto

lemma split_slash_free: "c \<in> set (split_slash s) \<Longrightarrow> CHR ''/'' \<notin> set c"
  by (induction s arbitrary: c) (auto split: if_splits list.splits)

lemma norm_comps_good:
  "\<forall>c \<in> set cs. CHR ''/'' \<notin> set c \<Longrightarrow> \<forall>c \<in> set acc. good c \<Longrightarrow>
   \<forall>c \<in> set (norm_comps k cs acc). good c"
proof (induction cs arbitrary: acc)
  case Nil then show ?case by simp
next
  case (Cons c cs)
  have b: "\<forall>c \<in> set (butlast acc). good c" using Cons.prems(2) by (auto dest: in_set_butlastD)
  have a: "c \<noteq> [] \<Longrightarrow> \<forall>x \<in> set (acc @ [c]). good x" using Cons.prems by (auto simp: good_def)
  have IH: "\<forall>c \<in> set (norm_comps k cs acc'). good c" if "\<forall>c \<in> set acc'. good c" for acc'
    by (rule Cons.IH) (use Cons.prems that in auto)
  show ?case
  proof (cases "c = [] \<or> c = ''.''")
    case True
    then show ?thesis using IH[OF Cons.prems(2)] by auto
  next
    case False
    then have g: "\<forall>x \<in> set (acc @ [c]). good x" using a by simp
    show ?thesis using False IH[OF g] IH[OF b] IH[OF Cons.prems(2)] by simp
  qed
qed

lemma join_good:
  "\<forall>c \<in> set cs. good c \<Longrightarrow>
   \<not> has_dslash (join_str ''/'' cs) \<and> \<not> prefix ''/'' (join_str ''/'' cs) \<and> (cs \<noteq> [] \<longrightarrow> join_str ''/'' cs \<noteq> [])"
proof (induction "''/''" cs rule: join_str.induct)
  case 1 then show ?case by simp
next
  case (2 x)
  then show ?case using has_dslash_append[of x "[]"] by (cases x) (auto simp: good_def)
next
  case (3 x y ys)
  let ?J = "join_str ''/'' (y # ys)"
  from 3 have J: "\<not> has_dslash ?J" "\<not> prefix ''/'' ?J" "?J \<noteq> []" by auto
  from 3 have x: "x \<noteq> []" "CHR ''/'' \<notin> set x" by (auto simp: good_def)
  from J obtain c cs where c: "?J = c # cs" "c \<noteq> CHR ''/''" by (cases ?J) auto
  have "has_dslash (x @ ''/'' @ ?J) = has_dslash (CHR ''/'' # ?J)"
    using has_dslash_append[OF x(2)] by simp
  also have "\<dots> = has_dslash ?J" using c by simp
  finally have "\<not> has_dslash (x @ ''/'' @ ?J)" using J by simp
  moreover have "\<not> prefix ''/'' (x @ ''/'' @ ?J)" using x by (cases x) auto
  ultimately show ?case using x by simp
qed

lemma normpath_no_dslash: "\<not> has_dslash (tl (normpath y))"
proof (cases "y = []")
  case True
  then show ?thesis by (simp add: normpath_def)
next
  case False
  define k :: nat where "k = (if prefix ''/'' y then (if prefix ''//'' y \<and> \<not> prefix ''///'' y then 2 else 1) else 0)"
  define J where "J = join_str ''/'' (norm_comps k (split_slash y) [])"
  have g: "\<forall>c \<in> set (norm_comps k (split_slash y) []). good c"
    by (rule norm_comps_good) (auto dest: split_slash_free)
  from join_good[OF g] have J: "\<not> has_dslash J" "\<not> prefix ''/'' J" by (simp_all add: J_def)
  have k: "k = 0 \<or> k = 1 \<or> k = 2" by (simp add: k_def)
  have n: "normpath y = (if replicate k CHR ''/'' @ J = [] then ''.'' else replicate k CHR ''/'' @ J)"
    using False by (simp add: normpath_def Let_def k_def J_def)
  have "\<not> has_dslash (tl (replicate k CHR ''/'' @ J))"
    using k
  proof (elim disjE)
    assume "k = 0" then show ?thesis using J(1) by (auto dest: has_dslash_tl)
  next
    assume "k = 1" then show ?thesis using J(1) by simp
  next
    assume "k = 2"
    then show ?thesis using J by (cases J) (auto simp: numeral_2_eq_2)
  qed
  then show ?thesis by (simp add: n)
qed

lemma normpath_split:
  assumes "normpath y = h @ ''/'' @ rest" and "h \<noteq> []"
  shows "\<not> prefix ''/'' rest"
proof
  assume "prefix ''/'' rest"
  then obtain r where r: "rest = CHR ''/'' # r" by (cases rest) auto
  from assms(2) obtain a h' where h: "h = a # h'" by (cases h) auto
  have "tl (normpath y) = h' @ CHR ''/'' # CHR ''/'' # r"
    using assms(1) r h by simp
  with has_dslash_mid[of h' r] normpath_no_dslash[of y] show False by simp
qed

text \<open>
  C7, as the code has it. Let \<open>q\<close> be the canonical absolute form of \<open>p\<close> (user and
  variables expanded, then \<open>os.path.abspath\<close>). When the home directory is not the
  root and \<open>q\<close> lies under it, \<open>_normalize\<close> yields a path that starts with the home
  marker and expanding the marker gives \<open>q\<close> back; this is \<open>p\<close> itself when \<open>p\<close> is already
  canonical.
\<close>

theorem normalize_roundtrip:
  assumes "rstrip_slash (home u) \<noteq> []"
    and "prefix (expanduser u TILD @ ''/'') (abspath u (expandvars u (expanduser u p)))"
  shows "prefix ''~/'' (normalize_path u p) \<and>
         expanduser u (normalize_path u p) = abspath u (expandvars u (expanduser u p)) \<and>
         (expanduser u p = p \<and> expandvars u p = p \<and> abspath u p = p \<longrightarrow> expanduser u (normalize_path u p) = p)"
proof -
  let ?q = "abspath u (expandvars u (expanduser u p))"
  let ?h = "rstrip_slash (home u)"
  have h: "expanduser u TILD = ?h"
    using assms(1) by (simp add: expanduser_def TILD_def Let_def)
  from assms(2) obtain rest where q: "?q = ?h @ ''/'' @ rest"
    unfolding h by (auto simp: prefix_def)
  obtain y where y: "?q = normpath y" by (simp add: abspath_def)
  from normpath_split[of y ?h rest] q y assms(1) have nr: "\<not> prefix ''/'' rest" by simp
  have d: "drop (length (expanduser u TILD @ ''/'')) ?q = rest"
    unfolding h q by simp
  have "normalize_path u p = path_join TILD rest"
    using assms(2) d by (simp only: normalize_path_def Let_def if_True)
  moreover have "path_join TILD rest = ''~/'' @ rest"
    using nr by (simp add: path_join_def TILD_def suffix_def)
  ultimately have n: "normalize_path u p = ''~/'' @ rest" by simp
  have e: "expanduser u (''~/'' @ rest) = ?h @ ''/'' @ rest"
    using assms(1) by (simp add: expanduser_def Let_def)
  have t1: "prefix ''~/'' (normalize_path u p)"
    using n by simp
  have t2: "expanduser u (normalize_path u p) = ?q"
    using n e q by simp
  have t3: "expanduser u p = p \<and> expandvars u p = p \<and> abspath u p = p \<longrightarrow>
            expanduser u (normalize_path u p) = p"
    by (simp add: t2)
  from t1 t2 t3 show ?thesis by blast
qed

theorem normalize_roundtrip_witness:
  "rstrip_slash (home demo_updater) \<noteq> [] \<and>
   prefix (expanduser demo_updater TILD @ ''/'')
     (abspath demo_updater (expandvars demo_updater (expanduser demo_updater ''/home/u/.vimrc''))) \<and>
   normalize_path demo_updater ''/home/u/.vimrc'' = ''~/.vimrc'' \<and>
   expanduser demo_updater (normalize_path demo_updater ''/home/u/.vimrc'') = ''/home/u/.vimrc''"
proof -
  have h1: "rstrip_slash (home demo_updater) \<noteq> []" by code_simp
  have h2: "prefix (expanduser demo_updater TILD @ ''/'')
     (abspath demo_updater (expandvars demo_updater (expanduser demo_updater ''/home/u/.vimrc'')))"
    by code_simp
  have a: "abspath demo_updater (expandvars demo_updater (expanduser demo_updater ''/home/u/.vimrc'')) = ''/home/u/.vimrc''"
    by code_simp
  have n: "normalize_path demo_updater ''/home/u/.vimrc'' = ''~/.vimrc''" by code_simp
  from normalize_roundtrip [OF h1 h2] a have "expanduser demo_updater (normalize_path demo_updater ''/home/u/.vimrc'') = ''/home/u/.vimrc''"
    by simp
  with h1 h2 n show ?thesis by blast
qed

text \<open>
  C7, as stated, fails for an absolute path under the home directory that is not
  canonical: \<open>os.path.abspath\<close> removes the \<open>..\<close>, and the original string is not
  reproduced.
\<close>

theorem normalize_roundtrip_fails:
  "prefix ''/'' ''/home/u/a/../b'' \<and>
   prefix (home demo_updater @ ''/'') ''/home/u/a/../b'' \<and>
   normalize_path demo_updater ''/home/u/a/../b'' = ''~/b'' \<and>
   expanduser demo_updater (normalize_path demo_updater ''/home/u/a/../b'') = ''/home/u/b'' \<and>
   expanduser demo_updater (normalize_path demo_updater ''/home/u/a/../b'') \<noteq> ''/home/u/a/../b''"
  by code_simp

end
